theory Spec2Isabelle
  imports Main "HOL-Library.Word" "HOL-Library.Char_ord" "HOL-Library.List_Lexorder"
begin

unbundle bit_operations_syntax

section \<open>Library functions the source calls\<close>

text \<open>
  The service is Python. Its strings are modelled as \<^typ>\<open>string\<close>: lists of characters
  with code points below 256. Bytes are 8-bit words. The standard-library functions
  the source calls (\<^verbatim>\<open>str.encode\<close>, \<^verbatim>\<open>hashlib.sha256\<close>, \<^verbatim>\<open>hmac.new\<close>,
  \<^verbatim>\<open>hexdigest\<close>, \<^verbatim>\<open>hmac.compare_digest\<close>, \<^verbatim>\<open>json.dumps\<close>, \<^verbatim>\<open>str.split\<close>) are
  written out here so that every definition below computes.
\<close>

type_synonym byte = "8 word"
type_synonym u32 = "32 word"

subsection \<open>\<^verbatim>\<open>str.encode()\<close>: UTF-8\<close>

definition utf8_char :: "char \<Rightarrow> byte list" where
  "utf8_char c =
     (let b = (of_char c :: byte)
      in if b < 0x80 then [b] else [0xC0 OR drop_bit 6 b, 0x80 OR (b AND 0x3F)])"

definition encode :: "string \<Rightarrow> byte list" where
  "encode s = concat (map utf8_char s)"

subsection \<open>\<^verbatim>\<open>hashlib.sha256\<close> (FIPS 180-4)\<close>

definition rotr :: "nat \<Rightarrow> u32 \<Rightarrow> u32" where
  "rotr n x = (drop_bit n x) OR (push_bit (32 - n) x)"

text \<open>
  The round constants are the first 32 bits of the fractional parts of the cube roots of
  the first 64 primes, the initial state those of the square roots of the first 8 primes.
\<close>

definition sha_K :: "u32 list" where
  "sha_K =
     [1116352408, 1899447441, 3049323471, 3921009573, 961987163, 1508970993,
      2453635748, 2870763221, 3624381080, 310598401, 607225278, 1426881987,
      1925078388, 2162078206, 2614888103, 3248222580, 3835390401, 4022224774,
      264347078, 604807628, 770255983, 1249150122, 1555081692, 1996064986,
      2554220882, 2821834349, 2952996808, 3210313671, 3336571891, 3584528711,
      113926993, 338241895, 666307205, 773529912, 1294757372, 1396182291,
      1695183700, 1986661051, 2177026350, 2456956037, 2730485921, 2820302411,
      3259730800, 3345764771, 3516065817, 3600352804, 4094571909, 275423344,
      430227734, 506948616, 659060556, 883997877, 958139571, 1322822218,
      1537002063, 1747873779, 1955562222, 2024104815, 2227730452, 2361852424,
      2428436474, 2756734187, 3204031479, 3329325298]"

definition sha_H0 :: "u32 list" where
  "sha_H0 =
     [1779033703, 3144134277, 1013904242, 2773480762,
      1359893119, 2600822924, 528734635, 1541459225]"

definition be32 :: "byte list \<Rightarrow> u32" where
  "be32 bs = foldl (\<lambda>acc b. push_bit 8 acc OR ucast b) 0 bs"

definition be_bytes32 :: "u32 \<Rightarrow> byte list" where
  "be_bytes32 w = map (\<lambda>i. ucast (drop_bit (8 * i) w)) [3, 2, 1, 0]"

definition be_bytes64 :: "64 word \<Rightarrow> byte list" where
  "be_bytes64 w = map (\<lambda>i. ucast (drop_bit (8 * i) w)) [7, 6, 5, 4, 3, 2, 1, 0]"

fun chunks :: "nat \<Rightarrow> 'a list \<Rightarrow> 'a list list" where
  "chunks n [] = []"
| "chunks n xs = (if n = 0 then [xs] else take n xs # chunks n (drop n xs))"

definition sha_pad :: "byte list \<Rightarrow> byte list" where
  "sha_pad m =
     m @ [0x80] @ replicate ((119 - length m mod 64) mod 64) 0 @ be_bytes64 (of_nat (8 * length m))"

definition ssig0 :: "u32 \<Rightarrow> u32" where
  "ssig0 x = rotr 7 x XOR rotr 18 x XOR drop_bit 3 x"

definition ssig1 :: "u32 \<Rightarrow> u32" where
  "ssig1 x = rotr 17 x XOR rotr 19 x XOR drop_bit 10 x"

definition bsig0 :: "u32 \<Rightarrow> u32" where
  "bsig0 x = rotr 2 x XOR rotr 13 x XOR rotr 22 x"

definition bsig1 :: "u32 \<Rightarrow> u32" where
  "bsig1 x = rotr 6 x XOR rotr 11 x XOR rotr 25 x"

definition ch :: "u32 \<Rightarrow> u32 \<Rightarrow> u32 \<Rightarrow> u32" where
  "ch x y z = (x AND y) XOR (NOT x AND z)"

definition maj :: "u32 \<Rightarrow> u32 \<Rightarrow> u32 \<Rightarrow> u32" where
  "maj x y z = (x AND y) XOR (x AND z) XOR (y AND z)"

text \<open>The message schedule is kept newest first: the head of the list is the last word computed.\<close>

fun schedule :: "nat \<Rightarrow> u32 list \<Rightarrow> u32 list" where
  "schedule 0 ws = ws"
| "schedule (Suc n) ws =
     schedule n ((ssig1 (ws ! 1) + ws ! 6 + ssig0 (ws ! 14) + ws ! 15) # ws)"

fun sha_round :: "u32 list \<Rightarrow> u32 \<times> u32 \<Rightarrow> u32 list" where
  "sha_round [a, b, c, d, e, f, g, h] (k, w) =
     (let t1 = h + bsig1 e + ch e f g + k + w;
          t2 = bsig0 a + maj a b c
      in [t1 + t2, a, b, c, d + t1, e, f, g])"
| "sha_round s _ = s"

definition compress :: "u32 list \<Rightarrow> byte list \<Rightarrow> u32 list" where
  "compress hs block =
     (let ws = rev (schedule 48 (rev (map be32 (chunks 4 block))))
      in map2 (+) hs (foldl sha_round hs (zip sha_K ws)))"

definition sha256 :: "byte list \<Rightarrow> byte list" where
  "sha256 m = concat (map be_bytes32 (foldl compress sha_H0 (chunks 64 (sha_pad m))))"

subsection \<open>\<^verbatim>\<open>hmac.new(key, msg, hashlib.sha256)\<close> (RFC 2104) and \<^verbatim>\<open>hexdigest\<close>\<close>

definition hmac_key_block :: "byte list \<Rightarrow> byte list" where
  "hmac_key_block key =
     (let k = (if length key > 64 then sha256 key else key)
      in k @ replicate (64 - length k) 0)"

definition hmac_sha256 :: "byte list \<Rightarrow> byte list \<Rightarrow> byte list" where
  "hmac_sha256 key msg =
     (let kb = hmac_key_block key
      in sha256 (map (\<lambda>b. b XOR 0x5C) kb @ sha256 (map (\<lambda>b. b XOR 0x36) kb @ msg)))"

definition hex_digit :: "nat \<Rightarrow> char" where
  "hex_digit n = (''0123456789abcdef'') ! (n mod 16)"

definition hexdigest :: "byte list \<Rightarrow> string" where
  "hexdigest bs =
     concat (map (\<lambda>b. [hex_digit (unat (drop_bit 4 b)), hex_digit (unat (b AND 15))]) bs)"

subsection \<open>\<^verbatim>\<open>hmac.compare_digest\<close>\<close>

text \<open>
  Exceptions are values. \<^verbatim>\<open>str(e)\<close> of an exception is its message; of a \<^verbatim>\<open>KeyError\<close> it is
  the quoted key.
\<close>

datatype error =
    Exception string
  | TypeError string
  | KeyError string
  | ValueError string
  | TransportError string
  | HTTPException int string

fun str_of_error :: "error \<Rightarrow> string" where
  "str_of_error (Exception m) = m"
| "str_of_error (TypeError m) = m"
| "str_of_error (KeyError k) = [CHR 0x27] @ k @ [CHR 0x27]"
| "str_of_error (ValueError m) = m"
| "str_of_error (TransportError m) = m"
| "str_of_error (HTTPException c m) = m"



subsection \<open>\<^verbatim>\<open>json.dumps\<close>\<close>

text \<open>
  JSON-serialisable Python values. A \<^verbatim>\<open>dict\<close> is the list of its items in insertion
  order; its keys are strings and pairwise distinct. Floats are left out.
\<close>

datatype json =
    JNull
  | JBool bool
  | JInt int
  | JStr string
  | JList "json list"
  | JDict "(string \<times> json) list"

record dumps_opts =
  sort_keys :: bool
  ensure_ascii :: bool
  item_separator :: string
  key_separator :: string

text \<open>The defaults of \<^verbatim>\<open>json.dumps\<close>.\<close>

definition default_opts :: dumps_opts where
  "default_opts =
     \<lparr>sort_keys = False, ensure_ascii = True, item_separator = '', '', key_separator = '': ''\<rparr>"

function digits :: "int \<Rightarrow> string" where
  "digits n = (if n < 10 then [char_of (48 + n)] else digits (n div 10) @ [char_of (48 + n mod 10)])"
  by pat_completeness auto
termination
  by (relation "measure nat") auto

declare digits.simps [simp del]

definition str_of_int :: "int \<Rightarrow> string" where
  "str_of_int i = (if i < 0 then CHR ''-'' # digits (- i) else digits i)"

definition u_escape :: "char \<Rightarrow> string" where
  "u_escape c =
     [CHR 0x5C, CHR ''u'', CHR ''0'', CHR ''0'',
      hex_digit ((of_char c :: nat) div 16), hex_digit ((of_char c :: nat) mod 16)]"

definition escape_char :: "bool \<Rightarrow> char \<Rightarrow> string" where
  "escape_char ascii_only c =
     (let n = (of_char c :: nat)
      in if n = 0x22 then [CHR 0x5C, CHR 0x22]
         else if n = 0x5C then [CHR 0x5C, CHR 0x5C]
         else if n = 0x08 then [CHR 0x5C, CHR ''b'']
         else if n = 0x0C then [CHR 0x5C, CHR ''f'']
         else if n = 0x0A then [CHR 0x5C, CHR ''n'']
         else if n = 0x0D then [CHR 0x5C, CHR ''r'']
         else if n = 0x09 then [CHR 0x5C, CHR ''t'']
         else if n < 0x20 \<or> (ascii_only \<and> n > 0x7E) then u_escape c
         else [c])"

definition encode_basestring :: "bool \<Rightarrow> string \<Rightarrow> string" where
  "encode_basestring ascii_only s = CHR 0x22 # concat (map (escape_char ascii_only) s) @ [CHR 0x22]"

fun join :: "string \<Rightarrow> string list \<Rightarrow> string" where
  "join sep [] = []"
| "join sep [x] = x"
| "join sep (x # y # ys) = x @ sep @ join sep (y # ys)"

definition dict_items :: "dumps_opts \<Rightarrow> (string \<times> 'a) list \<Rightarrow> (string \<times> 'a) list" where
  "dict_items opts kvs = (if sort_keys opts then sort_key fst kvs else kvs)"

lemma set_dict_items [simp]: "set (dict_items opts kvs) = set kvs"
  by (simp add: dict_items_def)

function json_dumps :: "dumps_opts \<Rightarrow> json \<Rightarrow> string" where
  "json_dumps opts JNull = ''null''"
| "json_dumps opts (JBool b) = (if b then ''true'' else ''false'')"
| "json_dumps opts (JInt i) = str_of_int i"
| "json_dumps opts (JStr s) = encode_basestring (ensure_ascii opts) s"
| "json_dumps opts (JList xs) =
     ''['' @ join (item_separator opts) (map (json_dumps opts) xs) @ '']''"
| "json_dumps opts (JDict kvs) =
     ''{'' @ join (item_separator opts)
       (map (\<lambda>kv. encode_basestring (ensure_ascii opts) (fst kv) @ key_separator opts
                  @ json_dumps opts (snd kv))
          (dict_items opts kvs)) @ ''}''"
  by pat_completeness auto

lemma size_json_item: "(k, v) \<in> set kvs \<Longrightarrow> size v < Suc (size_list (size_prod (\<lambda>_. 0) size) kvs)"
  by (induction kvs) auto

termination json_dumps
proof (relation "measure (\<lambda>(opts, j). size j)")
  show "wf (measure (\<lambda>(opts, j). size j))" by simp
next
  fix opts :: dumps_opts and xs :: "json list" and x :: json
  assume "x \<in> set xs"
  then show "((opts, x), opts, JList xs) \<in> measure (\<lambda>(opts, j). size j)"
    by (induction xs) auto
next
  fix opts :: dumps_opts and kvs :: "(string \<times> json) list" and z :: "string \<times> json"
  assume "z \<in> set (dict_items opts kvs)"
  then have "(fst z, snd z) \<in> set kvs" by simp
  then show "((opts, snd z), opts, JDict kvs) \<in> measure (\<lambda>(opts, j). size j)"
    using size_json_item [of "fst z" "snd z" kvs] by simp
qed

section \<open>Signature engine (\<^verbatim>\<open>webhooks/delivery.py\<close>)\<close>

definition generate_signature :: "json \<Rightarrow> string \<Rightarrow> string" where
  "generate_signature payload secret =
     (let payload_str = json_dumps (default_opts\<lparr>sort_keys := True\<rparr>) payload
      in hexdigest (hmac_sha256 (encode secret) (encode payload_str)))"


section \<open>Configuration (\<^verbatim>\<open>config.py\<close>)\<close>

record settings =
  BACKEND_API_URL :: string
  WEBHOOK_TIMEOUT :: int
  WEBHOOK_MAX_RETRIES :: int
  WEBHOOK_RETRY_DELAY :: int

definition default_settings :: settings where
  "default_settings =
     \<lparr>BACKEND_API_URL = ''http://localhost:3001'', WEBHOOK_TIMEOUT = 30,
      WEBHOOK_MAX_RETRIES = 3, WEBHOOK_RETRY_DELAY = 5\<rparr>"

section \<open>The outside world\<close>

text \<open>
  An HTTP call either returns a response or raises. What the service does to the world
  is recorded in a trace: every \<^verbatim>\<open>client.post\<close> it makes, every \<^verbatim>\<open>asyncio.sleep\<close>
  and every printed line. The behaviour of the world is a parameter: the outcome of the
  \<open>k\<close>-th POST to a subscriber, the outcome of the \<open>k\<close>-th POST to the analysis backend and
  the timestamp read before the \<open>k\<close>-th subscriber POST.
\<close>

record response =
  status_code :: int
  resp_text :: string
  json_body :: "json option"

datatype post_result = Response response | Raised string

record request =
  req_url :: string
  req_json :: json
  req_headers :: "(string \<times> string) list"

record upload =
  up_url :: string
  up_filename :: string
  up_content :: "byte list"

record world =
  webhook_posts :: "request list"
  backend_posts :: "upload list"
  sleeps :: "int list"
  logs :: "string list"

record env =
  outcomes :: "nat \<Rightarrow> post_result"
  backend :: "nat \<Rightarrow> post_result"
  utcnow :: "nat \<Rightarrow> string"

definition world0 :: world where
  "world0 = \<lparr>webhook_posts = [], backend_posts = [], sleeps = [], logs = []\<rparr>"

section \<open>Webhook dispatcher (\<^verbatim>\<open>webhooks/delivery.py\<close>)\<close>

definition webhook_payload :: "string \<Rightarrow> json \<Rightarrow> string \<Rightarrow> json" where
  "webhook_payload event data ts =
     JDict [(''event'', JStr event), (''data'', data), (''timestamp'', JStr ts)]"

text \<open>\<^verbatim>\<open>if secret:\<close> is false for \<^verbatim>\<open>None\<close> and for the empty string.\<close>

definition webhook_headers :: "string \<Rightarrow> json \<Rightarrow> string option \<Rightarrow> (string \<times> string) list" where
  "webhook_headers event payload secret =
     [(''Content-Type'', ''application/json''), (''X-Aegis-Event'', event)] @
     (case secret of
        None \<Rightarrow> []
      | Some s \<Rightarrow>
          if s = [] then []
          else [(''X-Aegis-Signature'', ''sha256='' @ generate_signature payload s)])"

function deliver_webhook ::
  "settings \<Rightarrow> env \<Rightarrow> string \<Rightarrow> string \<Rightarrow> json \<Rightarrow> string option \<Rightarrow> int \<Rightarrow> world
     \<Rightarrow> bool \<times> world" where
  "deliver_webhook cfg ev webhook_url event data secret retry_count w =
     (let payload = webhook_payload event data (utcnow ev (length (webhook_posts w)));
          headers = webhook_headers event payload secret;
          w1 = w\<lparr>webhook_posts := webhook_posts w @
                 [\<lparr>req_url = webhook_url, req_json = payload, req_headers = headers\<rparr>]\<rparr>
      in case outcomes ev (length (webhook_posts w)) of
           Response resp \<Rightarrow>
             if status_code resp \<in> set [200, 201, 202] then (True, w1)
             else if retry_count < WEBHOOK_MAX_RETRIES cfg then
               deliver_webhook cfg ev webhook_url event data secret (retry_count + 1)
                 (w1\<lparr>sleeps := sleeps w1 @ [WEBHOOK_RETRY_DELAY cfg * (retry_count + 1)]\<rparr>)
             else (False, w1)
         | Raised e \<Rightarrow>
             let w2 = w1\<lparr>logs := logs w1 @ [''Webhook delivery error: '' @ e]\<rparr>
             in if retry_count < WEBHOOK_MAX_RETRIES cfg then
                  deliver_webhook cfg ev webhook_url event data secret (retry_count + 1)
                    (w2\<lparr>sleeps := sleeps w2 @ [WEBHOOK_RETRY_DELAY cfg * (retry_count + 1)]\<rparr>)
                else (False, w2))"
  by pat_completeness auto
termination
  by (relation "measure (\<lambda>(cfg, ev, u, e, d, s, r, w). nat (WEBHOOK_MAX_RETRIES cfg - r))") auto

declare deliver_webhook.simps [simp del]

definition is_success :: "post_result \<Rightarrow> bool" where
  "is_success r =
     (case r of Response resp \<Rightarrow> status_code resp \<in> set [200, 201, 202] | Raised e \<Rightarrow> False)"

subsection \<open>One attempt at a time\<close>

text \<open>
  The three ways one call of \<^const>\<open>deliver_webhook\<close> can go, with the changes it makes to
  the trace named: the POST, the printed line of the \<^verbatim>\<open>except\<close> branch, the sleep.
\<close>

definition posted :: "env \<Rightarrow> string \<Rightarrow> string \<Rightarrow> json \<Rightarrow> string option \<Rightarrow> world \<Rightarrow> world" where
  "posted ev webhook_url event data secret w =
     (let payload = webhook_payload event data (utcnow ev (length (webhook_posts w)))
      in w\<lparr>webhook_posts := webhook_posts w @
            [\<lparr>req_url = webhook_url, req_json = payload,
              req_headers = webhook_headers event payload secret\<rparr>]\<rparr>)"

definition logged :: "post_result \<Rightarrow> world \<Rightarrow> world" where
  "logged r w =
     (case r of Response resp \<Rightarrow> w
      | Raised e \<Rightarrow> w\<lparr>logs := logs w @ [''Webhook delivery error: '' @ e]\<rparr>)"

definition slept :: "int \<Rightarrow> world \<Rightarrow> world" where
  "slept d w = w\<lparr>sleeps := sleeps w @ [d]\<rparr>"

lemma deliver_webhook_success:
  "is_success (outcomes ev (length (webhook_posts w))) \<Longrightarrow>
   deliver_webhook cfg ev u e d s r w = (True, posted ev u e d s w)"
  by (subst deliver_webhook.simps)
     (auto simp: is_success_def posted_def Let_def split: post_result.splits)

lemma deliver_webhook_retry:
  "\<not> is_success (outcomes ev (length (webhook_posts w))) \<Longrightarrow> r < WEBHOOK_MAX_RETRIES cfg \<Longrightarrow>
   deliver_webhook cfg ev u e d s r w =
   deliver_webhook cfg ev u e d s (r + 1)
     (slept (WEBHOOK_RETRY_DELAY cfg * (r + 1))
        (logged (outcomes ev (length (webhook_posts w))) (posted ev u e d s w)))"
  by (subst deliver_webhook.simps)
     (auto simp: is_success_def posted_def logged_def slept_def Let_def split: post_result.splits)

lemma deliver_webhook_give_up:
  "\<not> is_success (outcomes ev (length (webhook_posts w))) \<Longrightarrow> \<not> r < WEBHOOK_MAX_RETRIES cfg \<Longrightarrow>
   deliver_webhook cfg ev u e d s r w =
   (False, logged (outcomes ev (length (webhook_posts w))) (posted ev u e d s w))"
  by (subst deliver_webhook.simps)
     (auto simp: is_success_def posted_def logged_def Let_def split: post_result.splits)

lemma posts_step [simp]:
  "length (webhook_posts (slept x (logged q (posted ev u e d s w)))) = Suc (length (webhook_posts w))"
  "length (webhook_posts (logged q (posted ev u e d s w))) = Suc (length (webhook_posts w))"
  "length (webhook_posts (posted ev u e d s w)) = Suc (length (webhook_posts w))"
  by (auto simp: posted_def logged_def slept_def Let_def split: post_result.splits)

lemma sleeps_step [simp]:
  "sleeps (slept x (logged q (posted ev u e d s w))) = sleeps w @ [x]"
  "sleeps (logged q (posted ev u e d s w)) = sleeps w"
  "sleeps (posted ev u e d s w) = sleeps w"
  by (auto simp: posted_def logged_def slept_def Let_def split: post_result.splits)

lemma deliver_webhook_result:
  "fst (deliver_webhook cfg ev u e d s r w) =
     (\<exists>k. k \<le> nat (WEBHOOK_MAX_RETRIES cfg - r) \<and>
          is_success (outcomes ev (length (webhook_posts w) + k)))"
proof (induction "nat (WEBHOOK_MAX_RETRIES cfg - r)" arbitrary: r w)
  case 0
  then have nr: "\<not> r < WEBHOOK_MAX_RETRIES cfg" by simp
  show ?case
  proof (cases "is_success (outcomes ev (length (webhook_posts w)))")
    case True
    then show ?thesis by (auto simp: deliver_webhook_success intro: exI [of _ 0])
  next
    case False
    with nr 0 show ?thesis by (simp add: deliver_webhook_give_up)
  qed
next
  case (Suc n)
  then have lt: "r < WEBHOOK_MAX_RETRIES cfg" and n: "n = nat (WEBHOOK_MAX_RETRIES cfg - (r + 1))"
    by linarith+
  show ?case
  proof (cases "is_success (outcomes ev (length (webhook_posts w)))")
    case True
    then show ?thesis by (auto simp: deliver_webhook_success intro: exI [of _ 0])
  next
    case False
    have "fst (deliver_webhook cfg ev u e d s r w) =
      (\<exists>k. k \<le> n \<and> is_success (outcomes ev (Suc (length (webhook_posts w)) + k)))"
      using Suc.hyps(1) [OF n] False lt n by (simp add: deliver_webhook_retry)
    also have "\<dots> = (\<exists>k. k \<le> Suc n \<and> is_success (outcomes ev (length (webhook_posts w) + k)))"
    proof
      assume "\<exists>k. k \<le> n \<and> is_success (outcomes ev (Suc (length (webhook_posts w)) + k))"
      then obtain k where "k \<le> n" "is_success (outcomes ev (Suc (length (webhook_posts w)) + k))"
        by blast
      then show "\<exists>k. k \<le> Suc n \<and> is_success (outcomes ev (length (webhook_posts w) + k))"
        by (intro exI [of _ "Suc k"]) simp
    next
      assume "\<exists>k. k \<le> Suc n \<and> is_success (outcomes ev (length (webhook_posts w) + k))"
      then obtain k where k: "k \<le> Suc n" "is_success (outcomes ev (length (webhook_posts w) + k))"
        by blast
      with False have "k \<noteq> 0" by (cases k) auto
      then obtain j where "k = Suc j" by (cases k) auto
      with k show "\<exists>k. k \<le> n \<and> is_success (outcomes ev (Suc (length (webhook_posts w)) + k))"
        by (intro exI [of _ j]) simp
    qed
    finally show ?thesis using Suc.hyps(2) by simp
  qed
qed


lemma deliver_webhook_posts_grow:
  "Suc (length (webhook_posts w)) \<le> length (webhook_posts (snd (deliver_webhook cfg ev u e d s r w)))"
proof (induction "nat (WEBHOOK_MAX_RETRIES cfg - r)" arbitrary: r w)
  case 0
  then have nr: "\<not> r < WEBHOOK_MAX_RETRIES cfg" by simp
  show ?case
    by (cases "is_success (outcomes ev (length (webhook_posts w)))")
       (simp_all add: deliver_webhook_success deliver_webhook_give_up nr)
next
  case (Suc n)
  then have lt: "r < WEBHOOK_MAX_RETRIES cfg" and n: "n = nat (WEBHOOK_MAX_RETRIES cfg - (r + 1))"
    by linarith+
  show ?case
  proof (cases "is_success (outcomes ev (length (webhook_posts w)))")
    case True
    then show ?thesis by (simp add: deliver_webhook_success)
  next
    case False
    show ?thesis
      using Suc.hyps(1) [OF n, of "slept (WEBHOOK_RETRY_DELAY cfg * (r + 1))
        (logged (outcomes ev (length (webhook_posts w))) (posted ev u e d s w))"] False lt
      by (simp add: deliver_webhook_retry)
  qed
qed

lemma deliver_webhook_posts_all_fail:
  "(\<And>k. k \<le> nat (WEBHOOK_MAX_RETRIES cfg - r) \<Longrightarrow>
       \<not> is_success (outcomes ev (length (webhook_posts w) + k))) \<Longrightarrow>
   length (webhook_posts (snd (deliver_webhook cfg ev u e d s r w))) =
     length (webhook_posts w) + nat (WEBHOOK_MAX_RETRIES cfg - r) + 1"
proof (induction "nat (WEBHOOK_MAX_RETRIES cfg - r)" arbitrary: r w)
  case 0
  then have nr: "\<not> r < WEBHOOK_MAX_RETRIES cfg" by simp
  from 0(2) [of 0] have "\<not> is_success (outcomes ev (length (webhook_posts w)))" by simp
  with nr 0(1) show ?case by (simp add: deliver_webhook_give_up)
next
  case (Suc n)
  then have lt: "r < WEBHOOK_MAX_RETRIES cfg" and n: "n = nat (WEBHOOK_MAX_RETRIES cfg - (r + 1))"
    by linarith+
  from Suc.prems [of 0] have f0: "\<not> is_success (outcomes ev (length (webhook_posts w)))" by simp
  let ?w1 = "slept (WEBHOOK_RETRY_DELAY cfg * (r + 1))
        (logged (outcomes ev (length (webhook_posts w))) (posted ev u e d s w))"
  have "length (webhook_posts (snd (deliver_webhook cfg ev u e d s (r + 1) ?w1))) =
     length (webhook_posts ?w1) + nat (WEBHOOK_MAX_RETRIES cfg - (r + 1)) + 1"
  proof (rule Suc.hyps(1) [OF n])
    fix k assume "k \<le> nat (WEBHOOK_MAX_RETRIES cfg - (r + 1))"
    then have "Suc k \<le> nat (WEBHOOK_MAX_RETRIES cfg - r)" using lt by linarith
    from Suc.prems [OF this] show "\<not> is_success (outcomes ev (length (webhook_posts ?w1) + k))"
      by simp
  qed
  with f0 lt n Suc.hyps(2) show ?case by (simp add: deliver_webhook_retry)
qed

lemma map_upt_shift: "map f [0..<Suc n] = f 0 # map (\<lambda>i. f (Suc i)) [0..<n]"
  by (simp add: upt_conv_Cons map_Suc_upt [symmetric] del: upt_Suc)

lemma deliver_webhook_sleeps:
  "sleeps (snd (deliver_webhook cfg ev u e d s r w)) =
     sleeps w @ map (\<lambda>i. WEBHOOK_RETRY_DELAY cfg * (r + int i + 1))
       [0..<length (webhook_posts (snd (deliver_webhook cfg ev u e d s r w)))
              - Suc (length (webhook_posts w))]"
proof (induction "nat (WEBHOOK_MAX_RETRIES cfg - r)" arbitrary: r w)
  case 0
  then have nr: "\<not> r < WEBHOOK_MAX_RETRIES cfg" by simp
  show ?case
    by (cases "is_success (outcomes ev (length (webhook_posts w)))")
       (simp_all add: deliver_webhook_success deliver_webhook_give_up nr)
next
  case (Suc n)
  then have lt: "r < WEBHOOK_MAX_RETRIES cfg" and n: "n = nat (WEBHOOK_MAX_RETRIES cfg - (r + 1))"
    by linarith+
  show ?case
  proof (cases "is_success (outcomes ev (length (webhook_posts w)))")
    case True
    then show ?thesis by (simp add: deliver_webhook_success)
  next
    case False
    let ?w1 = "slept (WEBHOOK_RETRY_DELAY cfg * (r + 1))
        (logged (outcomes ev (length (webhook_posts w))) (posted ev u e d s w))"
    let ?res = "deliver_webhook cfg ev u e d s (r + 1) ?w1"
    have eq: "deliver_webhook cfg ev u e d s r w = ?res"
      using False lt by (simp add: deliver_webhook_retry)
    have grow: "Suc (Suc (length (webhook_posts w))) \<le> length (webhook_posts (snd ?res))"
      using deliver_webhook_posts_grow [of ?w1 cfg ev u e d s "r + 1"] by simp
    then obtain m where m: "length (webhook_posts (snd ?res)) = Suc (Suc (length (webhook_posts w))) + m"
      using le_Suc_ex by blast
    have "sleeps (snd ?res) = sleeps ?w1 @ map (\<lambda>i. WEBHOOK_RETRY_DELAY cfg * (r + 1 + int i + 1)) [0..<m]"
      using Suc.hyps(1) [OF n, of ?w1] m by simp
    then show ?thesis
      unfolding eq using m by (simp add: map_upt_shift add.commute add.left_commute del: upt_Suc)
  qed
qed

subsection \<open>Properties of the dispatcher\<close>

definition http_status :: "int \<Rightarrow> post_result" where
  "http_status c = Response \<lparr>status_code = c, resp_text = [], json_body = None\<rparr>"

definition always_500 :: env where
  "always_500 =
     \<lparr>outcomes = (\<lambda>k. http_status 500), backend = (\<lambda>k. http_status 500),
      utcnow = (\<lambda>k. ''2024-01-01T00:00:00'')\<rparr>"

definition fails_then_ok :: "nat \<Rightarrow> env" where
  "fails_then_ok n =
     \<lparr>outcomes = (\<lambda>k. if k < n then Raised ''timeout'' else http_status 200),
      backend = (\<lambda>k. http_status 500), utcnow = (\<lambda>k. ''2024-01-01T00:00:00'')\<rparr>"


text \<open>
  Claim C4 as stated fails: with \<^verbatim>\<open>WEBHOOK_MAX_RETRIES = 3\<close> an endpoint that always answers
  500 is POSTed four times (\<^verbatim>\<open>retry_count\<close> 0, 1, 2 and 3), not three.
\<close>

theorem always_failing_three_posts_counterexample:
  "fst (deliver_webhook default_settings always_500 ''http://subscriber'' ''analysis.completed''
          (JDict []) None 0 world0) = False \<and>
   length (webhook_posts (snd (deliver_webhook default_settings always_500 ''http://subscriber''
          ''analysis.completed'' (JDict []) None 0 world0))) = 4"
  by code_simp

text \<open>
  Claim C4, amended. With \<^verbatim>\<open>WEBHOOK_MAX_RETRIES = 3\<close>, against an endpoint whose every POST
  fails (a status outside \<open>{200, 201, 202}\<close> or an exception), \<^const>\<open>deliver_webhook\<close>
  returns \<open>False\<close> and makes exactly four POSTs: the first attempt and three retries.
\<close>

theorem always_failing_four_posts:
  assumes "WEBHOOK_MAX_RETRIES cfg = 3"
    and "\<forall>k. \<not> is_success (outcomes ev k)"
  shows "fst (deliver_webhook cfg ev webhook_url event data secret 0 w) = False \<and>
         length (webhook_posts (snd (deliver_webhook cfg ev webhook_url event data secret 0 w))) =
           length (webhook_posts w) + 4"
  using assms deliver_webhook_posts_all_fail [of cfg 0 ev w webhook_url event data secret]
  by (simp add: deliver_webhook_result)

theorem always_failing_four_posts_witness:
  "WEBHOOK_MAX_RETRIES default_settings = 3 \<and> (\<forall>k. \<not> is_success (outcomes always_500 k)) \<and>
   fst (deliver_webhook default_settings always_500 ''http://subscriber'' ''analysis.failed''
          (JDict []) None 0 world0) = False \<and>
   length (webhook_posts (snd (deliver_webhook default_settings always_500 ''http://subscriber''
          ''analysis.failed'' (JDict []) None 0 world0))) = 4"
proof -
  have a: "WEBHOOK_MAX_RETRIES default_settings = 3" by (simp add: default_settings_def)
  have b: "\<forall>k. \<not> is_success (outcomes always_500 k)"
    by (simp add: always_500_def is_success_def http_status_def)
  show ?thesis
    using always_failing_four_posts [OF a b, of "''http://subscriber''" "''analysis.failed''"
        "JDict []" None world0] a b
    by (simp add: world0_def)
qed

text \<open>
  Claim C6 as stated fails: after the failed attempt number 0 the code sleeps
  \<open>5 * (0 + 1) = 5\<close> seconds, not \<open>5 * 0\<close>.
\<close>

theorem backoff_base_times_attempt_counterexample:
  "sleeps (snd (deliver_webhook default_settings (fails_then_ok 1) ''http://subscriber''
          ''analysis.completed'' (JDict []) None 0 world0)) = [5] \<and>
   WEBHOOK_RETRY_DELAY default_settings * 0 \<noteq> 5"
  by code_simp

text \<open>
  Claim C6, amended. The delay slept after the failed attempt number \<open>n\<close> (counted from 0)
  that is followed by a retry is \<^verbatim>\<open>WEBHOOK_RETRY_DELAY * (n + 1)\<close>: the delays of one
  delivery are \<open>base, 2 * base, 3 * base, ...\<close>, one per retry, and for a positive base
  they increase strictly.
\<close>

theorem backoff_linear_from_one:
  assumes "0 < WEBHOOK_RETRY_DELAY cfg"
  shows "sleeps (snd (deliver_webhook cfg ev webhook_url event data secret 0 w)) =
           sleeps w @ map (\<lambda>n. WEBHOOK_RETRY_DELAY cfg * (int n + 1))
             [0..<length (webhook_posts (snd (deliver_webhook cfg ev webhook_url event data secret 0 w)))
                    - Suc (length (webhook_posts w))] \<and>
         sorted_wrt (<) (drop (length (sleeps w))
           (sleeps (snd (deliver_webhook cfg ev webhook_url event data secret 0 w))))"
proof -
  have eq: "sleeps (snd (deliver_webhook cfg ev webhook_url event data secret 0 w)) =
           sleeps w @ map (\<lambda>n. WEBHOOK_RETRY_DELAY cfg * (int n + 1))
             [0..<length (webhook_posts (snd (deliver_webhook cfg ev webhook_url event data secret 0 w)))
                    - Suc (length (webhook_posts w))]"
    using deliver_webhook_sleeps [of cfg ev webhook_url event data secret 0 w] by simp
  have "sorted_wrt (<) (map (\<lambda>n. WEBHOOK_RETRY_DELAY cfg * (int n + 1)) [0..<m])" for m
    using assms by (auto simp: sorted_wrt_iff_nth_less)
  then have "sorted_wrt (<) (drop (length (sleeps w))
           (sleeps (snd (deliver_webhook cfg ev webhook_url event data secret 0 w))))"
    by (subst eq) simp
  with eq show ?thesis by blast
qed

theorem backoff_linear_from_one_witness:
  "0 < WEBHOOK_RETRY_DELAY default_settings \<and>
   sleeps (snd (deliver_webhook default_settings (fails_then_ok 2) ''http://subscriber''
          ''analysis.completed'' (JDict []) None 0 world0)) = [5, 10] \<and>
   sorted_wrt (<) (drop (length (sleeps world0))
     (sleeps (snd (deliver_webhook default_settings (fails_then_ok 2) ''http://subscriber''
          ''analysis.completed'' (JDict []) None 0 world0))))"
proof -
  have a: "0 < WEBHOOK_RETRY_DELAY default_settings" by (simp add: default_settings_def)
  have b: "sleeps (snd (deliver_webhook default_settings (fails_then_ok 2) ''http://subscriber''
          ''analysis.completed'' (JDict []) None 0 world0)) = [5, 10]"
    by code_simp
  have c: "sorted_wrt (<) (drop (length (sleeps world0))
     (sleeps (snd (deliver_webhook default_settings (fails_then_ok 2) ''http://subscriber''
          ''analysis.completed'' (JDict []) None 0 world0))))"
    by (rule conjunct2 [OF backoff_linear_from_one [OF a]])
  from a b c show ?thesis by (intro conjI)
qed

section \<open>Properties of the signature engine\<close>














section \<open>What is signed and what is sent\<close>



definition mk_request :: "string \<Rightarrow> string \<Rightarrow> json \<Rightarrow> string option \<Rightarrow> string \<Rightarrow> request" where
  "mk_request webhook_url event data secret ts =
     \<lparr>req_url = webhook_url, req_json = webhook_payload event data ts,
      req_headers = webhook_headers event (webhook_payload event data ts) secret\<rparr>"









lemma webhook_posts_step [simp]:
  "webhook_posts (posted ev u e d s w) =
     webhook_posts w @ [mk_request u e d s (utcnow ev (length (webhook_posts w)))]"
  "webhook_posts (logged q w) = webhook_posts w"
  "webhook_posts (slept x w) = webhook_posts w"
  by (auto simp: posted_def logged_def slept_def mk_request_def Let_def split: post_result.splits)






section \<open>Analysis worker (\<^verbatim>\<open>jobs/processor.py\<close>)\<close>

text \<open>
  The job handed to the worker is the dictionary \<^verbatim>\<open>job_data\<close> that
  \<^verbatim>\<open>add_analysis_job\<close> builds; its keys are fixed, so it is a record.
\<close>

record job_data =
  job_id :: string
  filename :: string
  file_content :: string
  webhook_url :: "string option"
  options :: json
  api_key :: "string option"

text \<open>\<^verbatim>\<open>bytes.hex()\<close> and \<^verbatim>\<open>bytes.fromhex\<close> (on digits only: skipped whitespace is left out).\<close>

definition bytes_hex :: "byte list \<Rightarrow> string" where
  "bytes_hex bs = hexdigest bs"

definition hex_val :: "char \<Rightarrow> byte option" where
  "hex_val c =
     (let n = (of_char c :: nat)
      in if 48 \<le> n \<and> n \<le> 57 then Some (of_nat (n - 48))
         else if 97 \<le> n \<and> n \<le> 102 then Some (of_nat (n - 87))
         else if 65 \<le> n \<and> n \<le> 70 then Some (of_nat (n - 55))
         else None)"

fun fromhex :: "string \<Rightarrow> error + byte list" where
  "fromhex [] = Inr []"
| "fromhex [c] = Inl (ValueError ''non-hexadecimal number found in fromhex() arg'')"
| "fromhex (a # b # rest) =
     (case (hex_val a, hex_val b) of
        (Some x, Some y) \<Rightarrow>
          (case fromhex rest of
             Inr bs \<Rightarrow> Inr ((push_bit 4 x OR y) # bs)
           | Inl e \<Rightarrow> Inl e)
      | _ \<Rightarrow> Inl (ValueError ''non-hexadecimal number found in fromhex() arg''))"

text \<open>
  Subscripting \<^verbatim>\<open>d[k]\<close> and \<^verbatim>\<open>d.get(k, default)\<close> on a parsed JSON value. A missing
  key raises \<^verbatim>\<open>KeyError\<close>, a value that is not a dictionary \<^verbatim>\<open>TypeError\<close>; the wording of
  the \<^verbatim>\<open>TypeError\<close> message depends on the Python version and is not reproduced.
\<close>

definition getitem :: "json \<Rightarrow> string \<Rightarrow> error + json" where
  "getitem j k =
     (case j of
        JDict kvs \<Rightarrow> (case map_of kvs k of Some v \<Rightarrow> Inr v | None \<Rightarrow> Inl (KeyError k))
      | _ \<Rightarrow> Inl (TypeError ''object is not subscriptable with a string key''))"

definition get_default :: "json \<Rightarrow> string \<Rightarrow> json \<Rightarrow> json" where
  "get_default j k dflt =
     (case j of
        JDict kvs \<Rightarrow> (case map_of kvs k of Some v \<Rightarrow> v | None \<Rightarrow> dflt)
      | _ \<Rightarrow> dflt)"

definition ebind :: "error + 'a \<Rightarrow> ('a \<Rightarrow> error + 'b) \<Rightarrow> error + 'b" where
  "ebind m f = (case m of Inl e \<Rightarrow> Inl e | Inr x \<Rightarrow> f x)"

text \<open>The dictionary \<^verbatim>\<open>analysis_result\<close>; the subscripts are evaluated in source order.\<close>

definition format_result :: "string \<Rightarrow> json \<Rightarrow> error + json" where
  "format_result jid result =
     ebind (getitem result ''document'') (\<lambda>doc.
     ebind (getitem doc ''id'') (\<lambda>doc_id.
     ebind (getitem doc ''filename'') (\<lambda>fname.
     ebind (getitem doc ''riskLevel'') (\<lambda>risk_level.
     ebind (getitem doc ''numPages'') (\<lambda>num_pages.
     ebind (getitem doc ''numChunks'') (\<lambda>num_chunks.
       Inr (JDict
         [(''job_id'', JStr jid),
          (''status'', JStr ''completed''),
          (''result'', JDict
            [(''document_id'', doc_id),
             (''filename'', fname),
             (''risk_level'', risk_level),
             (''risk_category'', get_default doc ''riskCategory'' (JStr ''None'')),
             (''risk_confidence'', get_default doc ''riskConfidence'' (JInt 0)),
             (''risk_explanation'', get_default doc ''riskExplanation'' (JStr [])),
             (''recommendations'', get_default doc ''recommendations'' (JList [])),
             (''num_pages'', num_pages),
             (''num_chunks'', num_chunks),
             (''metadata'', JDict [])])])))))))"

text \<open>
  The body of the \<^verbatim>\<open>try\<close> block up to the webhook: the POST to the backend, the status
  check, \<^verbatim>\<open>response.json()\<close> and the formatting.
\<close>

definition call_backend ::
  "settings \<Rightarrow> env \<Rightarrow> job_data \<Rightarrow> byte list \<Rightarrow> world \<Rightarrow> (error + json) \<times> world" where
  "call_backend cfg ev jd content w =
     (let w1 = w\<lparr>backend_posts := backend_posts w @
                 [\<lparr>up_url = BACKEND_API_URL cfg @ ''/api/upload'', up_filename = filename jd,
                   up_content = content\<rparr>]\<rparr>
      in case backend ev (length (backend_posts w)) of
           Raised e \<Rightarrow> (Inl (TransportError e), w1)
         | Response resp \<Rightarrow>
             if status_code resp \<noteq> 200
             then (Inl (Exception (''Backend API error: '' @ resp_text resp)), w1)
             else (case json_body resp of
                     None \<Rightarrow> (Inl (ValueError ''Expecting value''), w1)
                   | Some result \<Rightarrow> (format_result (job_id jd) result, w1)))"

text \<open>\<^verbatim>\<open>if webhook_url:\<close> is false for \<^verbatim>\<open>None\<close> and for the empty string.\<close>

definition process_analysis_job ::
  "settings \<Rightarrow> env \<Rightarrow> job_data \<Rightarrow> world \<Rightarrow> (error + json) \<times> world" where
  "process_analysis_job cfg ev jd w =
     (case fromhex (file_content jd) of
        Inl e \<Rightarrow> (Inl e, w)
      | Inr content \<Rightarrow>
          (case call_backend cfg ev jd content w of
             (Inr analysis_result, w1) \<Rightarrow>
               (case webhook_url jd of
                  Some url \<Rightarrow>
                    if url \<noteq> []
                    then (Inr analysis_result,
                          snd (deliver_webhook cfg ev url ''analysis.completed''
                                 analysis_result None 0 w1))
                    else (Inr analysis_result, w1)
                | None \<Rightarrow> (Inr analysis_result, w1))
           | (Inl e, w1) \<Rightarrow>
               (let error_result =
                      JDict [(''job_id'', JStr (job_id jd)), (''status'', JStr ''failed''),
                             (''error'', JStr (str_of_error e))]
                in case webhook_url jd of
                     Some url \<Rightarrow>
                       if url \<noteq> []
                       then (Inl e, snd (deliver_webhook cfg ev url ''analysis.failed''
                                           error_result None 0 w1))
                       else (Inl e, w1)
                   | None \<Rightarrow> (Inl e, w1))))"

section \<open>Job queue (\<^verbatim>\<open>jobs/queue.py\<close>)\<close>

text \<open>
  The module state: the list \<^verbatim>\<open>_in_memory_queue\<close>, the dictionary
  \<^verbatim>\<open>_in_memory_processing\<close> from job ids to small dictionaries, and the BullMQ queue.
  \<open>bullmq_jobs\<close> is \<open>None\<close> when \<^verbatim>\<open>BULLMQ_AVAILABLE and queue\<close> is false (the in-memory
  fallback is in use); otherwise it holds what was handed to \<^verbatim>\<open>queue.add\<close>. What BullMQ
  does with a job is outside the repository. \<open>running\<close> is the job the background task
  is awaiting \<^verbatim>\<open>process_analysis_job\<close> for.
\<close>

record add_opts =
  attempts :: nat
  backoff_type :: string
  backoff_delay :: nat

record queue_state =
  in_memory_queue :: "job_data list"
  in_memory_processing :: "string \<rightharpoonup> (string \<times> json) list"
  bullmq_jobs :: "(job_data \<times> add_opts) list option"
  running :: "job_data option"

definition queue0 :: queue_state where
  "queue0 =
     \<lparr>in_memory_queue = [], in_memory_processing = Map.empty, bullmq_jobs = None,
      running = None\<rparr>"

definition add_analysis_job ::
  "string \<Rightarrow> byte list \<Rightarrow> string \<Rightarrow> string option \<Rightarrow> json option \<Rightarrow> string option
     \<Rightarrow> queue_state \<Rightarrow> string \<times> queue_state" where
  "add_analysis_job jid content fname wurl opts akey s =
     (let jd = \<lparr>job_id = jid, filename = fname, file_content = bytes_hex content,
                 webhook_url = wurl,
                 options = (case opts of None \<Rightarrow> JDict [] | Some d \<Rightarrow> d),
                 api_key = akey\<rparr>
      in case bullmq_jobs s of
           Some js \<Rightarrow>
             (jid, s\<lparr>bullmq_jobs := Some (js @
                [(jd, \<lparr>attempts = 3, backoff_type = ''exponential'', backoff_delay = 2000\<rparr>)])\<rparr>)
         | None \<Rightarrow>
             (jid, s\<lparr>in_memory_queue := in_memory_queue s @ [jd],
                     in_memory_processing :=
                       (in_memory_processing s)(jid \<mapsto> [(''status'', JStr ''pending'')])\<rparr>))"

text \<open>
  One iteration of \<^verbatim>\<open>_process_queue_background\<close> is two atomic steps with a suspension
  between them: \<open>begin_job\<close> runs up to \<^verbatim>\<open>await process_analysis_job\<close> (an iteration on
  an empty queue only sleeps), \<open>finish_job\<close> runs the worker and the rest of the
  iteration. Other coroutines, \<^verbatim>\<open>add_analysis_job\<close> among them, run in between.
\<close>

definition begin_job :: "queue_state \<times> world \<Rightarrow> queue_state \<times> world" where
  "begin_job sw =
     (let s = fst sw; w = snd sw
      in case running s of
           Some jd \<Rightarrow> (s, w)
         | None \<Rightarrow>
             (case in_memory_queue s of
                [] \<Rightarrow> (s, w\<lparr>sleeps := sleeps w @ [1]\<rparr>)
              | jd # rest \<Rightarrow>
                  (s\<lparr>in_memory_queue := rest,
                     in_memory_processing :=
                       (in_memory_processing s)(job_id jd \<mapsto> [(''status'', JStr ''processing'')]),
                     running := Some jd\<rparr>, w)))"

definition finish_job :: "settings \<Rightarrow> env \<Rightarrow> queue_state \<times> world \<Rightarrow> queue_state \<times> world" where
  "finish_job cfg ev sw =
     (let s = fst sw; w = snd sw
      in case running s of
           None \<Rightarrow> (s, w)
         | Some jd \<Rightarrow>
             (case process_analysis_job cfg ev jd w of
                (Inr res, w1) \<Rightarrow>
                  (s\<lparr>in_memory_processing :=
                       (in_memory_processing s)(job_id jd \<mapsto> [(''status'', JStr ''completed'')]),
                     running := None\<rparr>,
                   w1\<lparr>sleeps := sleeps w1 @ [1]\<rparr>)
              | (Inl e, w1) \<Rightarrow>
                  (s\<lparr>in_memory_processing :=
                       (in_memory_processing s)(job_id jd \<mapsto>
                          [(''status'', JStr ''failed''), (''error'', JStr (str_of_error e))]),
                     running := None\<rparr>,
                   w1\<lparr>sleeps := sleeps w1 @ [1]\<rparr>)))"

text \<open>The operations that change the queue, and runs of them.\<close>

datatype op =
    Add string "byte list" string "string option" "json option" "string option"
  | Begin
  | Finish

fun step :: "settings \<Rightarrow> env \<Rightarrow> queue_state \<times> world \<Rightarrow> op \<Rightarrow> queue_state \<times> world" where
  "step cfg ev sw (Add jid content fname wurl opts akey) =
     (snd (add_analysis_job jid content fname wurl opts akey (fst sw)), snd sw)"
| "step cfg ev sw Begin = begin_job sw"
| "step cfg ev sw Finish = finish_job cfg ev sw"

definition run :: "settings \<Rightarrow> env \<Rightarrow> queue_state \<times> world \<Rightarrow> op list \<Rightarrow> queue_state \<times> world" where
  "run cfg ev sw ops = foldl (step cfg ev) sw ops"

text \<open>
  \<^verbatim>\<open>get_job_status\<close>, in-memory branch. In the BullMQ branch the answer comes from the
  library: \<open>bullmq_lookup\<close> stands for \<^verbatim>\<open>queue.getJob\<close> with the job's state, progress
  and data.
\<close>

definition get_job_status ::
  "(string \<Rightarrow> (string \<times> json \<times> json) option) \<Rightarrow> string \<Rightarrow> queue_state
     \<Rightarrow> (string \<times> json) list option" where
  "get_job_status bullmq_lookup jid s =
     (case bullmq_jobs s of
        Some js \<Rightarrow>
          (case bullmq_lookup jid of
             None \<Rightarrow> None
           | Some (state, progress, data) \<Rightarrow>
               Some [(''job_id'', JStr jid), (''status'', JStr state), (''progress'', progress),
                     (''data'', data)])
      | None \<Rightarrow>
          (case in_memory_processing s jid of
             Some d \<Rightarrow>
               Some [(''job_id'', JStr jid),
                     (''status'', (case map_of d ''status'' of Some v \<Rightarrow> v | None \<Rightarrow> JStr ''unknown'')),
                     (''progress'', JNull),
                     (''data'', JDict d)]
           | None \<Rightarrow> None))"

section \<open>Job status endpoint (\<^verbatim>\<open>endpoints/jobs.py\<close>)\<close>

record job_status_response =
  r_job_id :: string
  r_status :: string
  r_created_at :: string
  r_completed_at :: "string option"
  r_result :: "json option"
  r_error :: "string option"

definition status_map :: "(string \<times> string) list" where
  "status_map =
     [(''waiting'', ''pending''), (''active'', ''processing''), (''completed'', ''completed''),
      (''failed'', ''failed''), (''delayed'', ''pending'')]"

definition get_job ::
  "(string \<Rightarrow> (string \<times> json \<times> json) option) \<Rightarrow> string \<Rightarrow> string \<Rightarrow> queue_state
     \<Rightarrow> error + job_status_response" where
  "get_job bullmq_lookup now jid s =
     (case get_job_status bullmq_lookup jid s of
        None \<Rightarrow> Inl (HTTPException 404 ''Job not found'')
      | Some job_info \<Rightarrow>
          (let job_status =
                 (case map_of job_info ''status'' of
                    Some (JStr st) \<Rightarrow>
                      (case map_of status_map st of Some v \<Rightarrow> v | None \<Rightarrow> ''unknown'')
                  | _ \<Rightarrow> ''unknown'');
               result_error =
                 (if job_status = ''completed''
                  then (case map_of job_info ''data'' of
                          Some (JDict job_data) \<Rightarrow> (map_of job_data ''result'', None)
                        | _ \<Rightarrow> (None, None))
                  else if job_status = ''failed'' then (None, Some ''Job processing failed'')
                  else (None, None))
           in Inr \<lparr>r_job_id = jid, r_status = job_status, r_created_at = now,
                    r_completed_at =
                      (if job_status \<in> set [''completed'', ''failed''] then Some now else None),
                    r_result = fst result_error, r_error = snd result_error\<rparr>))"

section \<open>Properties of the job queue\<close>

text \<open>
  The status recorded for a job id is the \<^verbatim>\<open>"status"\<close> entry of its dictionary in
  \<^verbatim>\<open>_in_memory_processing\<close>. A step moves it forward when it leaves it alone or takes
  it from nothing to \<^verbatim>\<open>pending\<close>, from \<^verbatim>\<open>pending\<close> to \<^verbatim>\<open>processing\<close>, or from
  \<^verbatim>\<open>processing\<close> to \<^verbatim>\<open>completed\<close> or \<^verbatim>\<open>failed\<close>.
\<close>

definition status_of :: "queue_state \<Rightarrow> string \<Rightarrow> string option" where
  "status_of s jid =
     (case in_memory_processing s jid of
        None \<Rightarrow> None
      | Some d \<Rightarrow> (case map_of d ''status'' of Some (JStr st) \<Rightarrow> Some st | _ \<Rightarrow> None))"

definition forward :: "string option \<Rightarrow> string option \<Rightarrow> bool" where
  "forward a b =
     (a = b \<or> (a = None \<and> b = Some ''pending'') \<or>
      (a = Some ''pending'' \<and> b = Some ''processing'') \<or>
      (a = Some ''processing'' \<and> (b = Some ''completed'' \<or> b = Some ''failed'')))"

text \<open>
  A run submits fresh ids when every \<^const>\<open>Add\<close> in it uses an id that has no record at
  that moment. \<open>forward_run\<close> says that every step of a run moves the status of every
  id forward.
\<close>

definition fresh :: "queue_state \<Rightarrow> op \<Rightarrow> bool" where
  "fresh s x =
     (case x of Add jid content fname wurl opts akey \<Rightarrow> in_memory_processing s jid = None
      | _ \<Rightarrow> True)"

fun fresh_ids :: "settings \<Rightarrow> env \<Rightarrow> queue_state \<times> world \<Rightarrow> op list \<Rightarrow> bool" where
  "fresh_ids cfg ev sw [] = True"
| "fresh_ids cfg ev sw (x # xs) = (fresh (fst sw) x \<and> fresh_ids cfg ev (step cfg ev sw x) xs)"

fun forward_run :: "settings \<Rightarrow> env \<Rightarrow> queue_state \<times> world \<Rightarrow> op list \<Rightarrow> bool" where
  "forward_run cfg ev sw [] = True"
| "forward_run cfg ev sw (x # xs) =
     ((\<forall>jid. forward (status_of (fst sw) jid) (status_of (fst (step cfg ev sw x)) jid)) \<and>
      forward_run cfg ev (step cfg ev sw x) xs)"

text \<open>
  The invariant of the in-memory queue: queued ids are distinct and pending, and the job
  being processed is recorded as processing.
\<close>

definition queue_inv :: "queue_state \<Rightarrow> bool" where
  "queue_inv s =
     (bullmq_jobs s = None \<and>
      distinct (map job_id (in_memory_queue s)) \<and>
      (\<forall>jd \<in> set (in_memory_queue s). status_of s (job_id jd) = Some ''pending'') \<and>
      (case running s of None \<Rightarrow> True | Some jd \<Rightarrow> status_of s (job_id jd) = Some ''processing''))"

lemma status_of_None: "in_memory_processing s jid = None \<Longrightarrow> status_of s jid = None"
  by (simp add: status_of_def)

lemma status_of_update:
  "in_memory_processing s' = (in_memory_processing s)(k \<mapsto> (''status'', JStr st) # rest) \<Longrightarrow>
   status_of s' x = (if x = k then Some st else status_of s x)"
  by (simp add: status_of_def)

text \<open>What each operation does to the four components of the queue state.\<close>

lemma add_in_memory:
  "bullmq_jobs s = None \<Longrightarrow>
   fst (add_analysis_job jid content fname wurl opts akey s) = jid \<and>
   in_memory_queue (snd (add_analysis_job jid content fname wurl opts akey s)) =
     in_memory_queue s @
       [\<lparr>job_id = jid, filename = fname, file_content = bytes_hex content, webhook_url = wurl,
         options = (case opts of None \<Rightarrow> JDict [] | Some d \<Rightarrow> d), api_key = akey\<rparr>] \<and>
   in_memory_processing (snd (add_analysis_job jid content fname wurl opts akey s)) =
     (in_memory_processing s)(jid \<mapsto> [(''status'', JStr ''pending'')]) \<and>
   running (snd (add_analysis_job jid content fname wurl opts akey s)) = running s \<and>
   bullmq_jobs (snd (add_analysis_job jid content fname wurl opts akey s)) = None"
  by (simp add: add_analysis_job_def Let_def)

lemma begin_job_idle:
  "running s \<noteq> None \<or> in_memory_queue s = [] \<Longrightarrow> fst (begin_job (s, w)) = s"
  by (auto simp: begin_job_def Let_def split: option.splits list.splits)

lemma begin_job_claim:
  "running s = None \<Longrightarrow> in_memory_queue s = jd # rest \<Longrightarrow>
   in_memory_queue (fst (begin_job (s, w))) = rest \<and>
   in_memory_processing (fst (begin_job (s, w))) =
     (in_memory_processing s)(job_id jd \<mapsto> [(''status'', JStr ''processing'')]) \<and>
   running (fst (begin_job (s, w))) = Some jd \<and>
   bullmq_jobs (fst (begin_job (s, w))) = bullmq_jobs s"
  by (simp add: begin_job_def Let_def)

lemma finish_job_idle: "running s = None \<Longrightarrow> fst (finish_job cfg ev (s, w)) = s"
  by (simp add: finish_job_def Let_def)

lemma finish_job_done:
  "running s = Some jd \<Longrightarrow>
   in_memory_queue (fst (finish_job cfg ev (s, w))) = in_memory_queue s \<and>
   (\<exists>st rest. (st = ''completed'' \<or> st = ''failed'') \<and>
      in_memory_processing (fst (finish_job cfg ev (s, w))) =
        (in_memory_processing s)(job_id jd \<mapsto> (''status'', JStr st) # rest)) \<and>
   running (fst (finish_job cfg ev (s, w))) = None \<and>
   bullmq_jobs (fst (finish_job cfg ev (s, w))) = bullmq_jobs s"
  by (auto simp: finish_job_def Let_def split: prod.splits sum.splits)

lemma queue_inv_pending_known:
  assumes "queue_inv s" and "jd \<in> set (in_memory_queue s)"
  shows "in_memory_processing s (job_id jd) \<noteq> None"
proof
  assume "in_memory_processing s (job_id jd) = None"
  then have "status_of s (job_id jd) = None" by (rule status_of_None)
  moreover from assms have "status_of s (job_id jd) = Some ''pending''"
    by (simp add: queue_inv_def)
  ultimately show False by simp
qed

lemma add_inv:
  assumes inv: "queue_inv s" and new: "in_memory_processing s jid = None"
  shows "queue_inv (snd (add_analysis_job jid content fname wurl opts akey s))"
proof -
  let ?s' = "snd (add_analysis_job jid content fname wurl opts akey s)"
  from inv have b: "bullmq_jobs s = None" by (simp add: queue_inv_def)
  note eff = add_in_memory [OF b, of jid content fname wurl opts akey]
  have st: "status_of ?s' x = (if x = jid then Some ''pending'' else status_of s x)" for x
    using eff by (intro status_of_update) simp
  have notin: "jid \<notin> job_id ` set (in_memory_queue s)"
  proof
    assume "jid \<in> job_id ` set (in_memory_queue s)"
    then obtain jd where jd: "jd \<in> set (in_memory_queue s)" "job_id jd = jid" by auto
    from queue_inv_pending_known [OF inv jd(1)] new jd(2) show False by simp
  qed
  have "distinct (map job_id (in_memory_queue ?s'))"
    using inv notin eff by (simp add: queue_inv_def)
  moreover have "\<forall>jd \<in> set (in_memory_queue ?s'). status_of ?s' (job_id jd) = Some ''pending''"
    using inv eff by (auto simp: queue_inv_def st)
  moreover have "case running ?s' of None \<Rightarrow> True
                 | Some jd \<Rightarrow> status_of ?s' (job_id jd) = Some ''processing''"
  proof (cases "running s")
    case None
    then show ?thesis using eff by simp
  next
    case (Some jd)
    with inv have p: "status_of s (job_id jd) = Some ''processing''" by (simp add: queue_inv_def)
    with new have "job_id jd \<noteq> jid" by (auto simp: status_of_def)
    with p Some eff show ?thesis by (simp add: st)
  qed
  ultimately show ?thesis using eff by (simp add: queue_inv_def)
qed

lemma add_forward:
  assumes inv: "queue_inv s" and new: "in_memory_processing s jid = None"
  shows "forward (status_of s x) (status_of (snd (add_analysis_job jid content fname wurl opts akey s)) x)"
proof -
  let ?s' = "snd (add_analysis_job jid content fname wurl opts akey s)"
  from inv have b: "bullmq_jobs s = None" by (simp add: queue_inv_def)
  note eff = add_in_memory [OF b, of jid content fname wurl opts akey]
  have st: "status_of ?s' x = (if x = jid then Some ''pending'' else status_of s x)"
    using eff by (intro status_of_update) simp
  show ?thesis using status_of_None [OF new] by (simp add: st forward_def)
qed

lemma begin_inv:
  assumes inv: "queue_inv s"
  shows "queue_inv (fst (begin_job (s, w)))"
proof (cases "running s \<noteq> None \<or> in_memory_queue s = []")
  case True
  then show ?thesis using inv by (simp add: begin_job_idle)
next
  case False
  then obtain jd rest where r: "running s = None" and q: "in_memory_queue s = jd # rest"
    by (cases "in_memory_queue s") auto
  let ?s' = "fst (begin_job (s, w))"
  note eff = begin_job_claim [OF r q, of w]
  have st: "status_of ?s' x = (if x = job_id jd then Some ''processing'' else status_of s x)" for x
    using eff by (intro status_of_update) simp
  from inv q have d: "job_id jd \<notin> job_id ` set rest" "distinct (map job_id rest)"
    by (auto simp: queue_inv_def)
  have "\<forall>j \<in> set (in_memory_queue ?s'). status_of ?s' (job_id j) = Some ''pending''"
  proof
    fix j assume "j \<in> set (in_memory_queue ?s')"
    with eff have j: "j \<in> set rest" by simp
    with d(1) have ne: "job_id j \<noteq> job_id jd" by (metis imageI)
    from j inv q have "status_of s (job_id j) = Some ''pending''" by (simp add: queue_inv_def)
    with ne show "status_of ?s' (job_id j) = Some ''pending''" by (simp add: st)
  qed
  with inv d eff show ?thesis by (simp add: queue_inv_def st)
qed

lemma begin_forward:
  assumes inv: "queue_inv s"
  shows "forward (status_of s x) (status_of (fst (begin_job (s, w))) x)"
proof (cases "running s \<noteq> None \<or> in_memory_queue s = []")
  case True
  then show ?thesis by (simp add: begin_job_idle forward_def)
next
  case False
  then obtain jd rest where r: "running s = None" and q: "in_memory_queue s = jd # rest"
    by (cases "in_memory_queue s") auto
  let ?s' = "fst (begin_job (s, w))"
  note eff = begin_job_claim [OF r q, of w]
  have st: "status_of ?s' x = (if x = job_id jd then Some ''processing'' else status_of s x)"
    using eff by (intro status_of_update) simp
  from inv q have "status_of s (job_id jd) = Some ''pending''" by (simp add: queue_inv_def)
  then show ?thesis by (simp add: st forward_def)
qed

lemma finish_inv:
  assumes inv: "queue_inv s"
  shows "queue_inv (fst (finish_job cfg ev (s, w)))"
proof (cases "running s")
  case None
  then show ?thesis using inv by (simp add: finish_job_idle)
next
  case (Some jd)
  let ?s' = "fst (finish_job cfg ev (s, w))"
  from finish_job_done [OF Some, of cfg ev w] obtain st rest where
    eff: "in_memory_queue ?s' = in_memory_queue s"
      "in_memory_processing ?s' = (in_memory_processing s)(job_id jd \<mapsto> (''status'', JStr st) # rest)"
      "running ?s' = None" "bullmq_jobs ?s' = bullmq_jobs s"
    by blast
  have st: "status_of ?s' x = (if x = job_id jd then Some st else status_of s x)" for x
    using eff(2) by (rule status_of_update)
  from inv Some have p: "status_of s (job_id jd) = Some ''processing''" by (simp add: queue_inv_def)
  have "\<forall>j \<in> set (in_memory_queue ?s'). status_of ?s' (job_id j) = Some ''pending''"
  proof
    fix j assume "j \<in> set (in_memory_queue ?s')"
    with eff(1) inv have pj: "status_of s (job_id j) = Some ''pending''" by (simp add: queue_inv_def)
    with p have "job_id j \<noteq> job_id jd" by auto
    with pj show "status_of ?s' (job_id j) = Some ''pending''" by (simp add: st)
  qed
  with inv eff show ?thesis by (simp add: queue_inv_def)
qed

lemma finish_forward:
  assumes inv: "queue_inv s"
  shows "forward (status_of s x) (status_of (fst (finish_job cfg ev (s, w))) x)"
proof (cases "running s")
  case None
  then show ?thesis by (simp add: finish_job_idle forward_def)
next
  case (Some jd)
  let ?s' = "fst (finish_job cfg ev (s, w))"
  from finish_job_done [OF Some, of cfg ev w] obtain st rest where
    t: "st = ''completed'' \<or> st = ''failed''" and
    eff: "in_memory_processing ?s' = (in_memory_processing s)(job_id jd \<mapsto> (''status'', JStr st) # rest)"
    by blast
  have st: "status_of ?s' x = (if x = job_id jd then Some st else status_of s x)"
    using eff by (rule status_of_update)
  from inv Some have "status_of s (job_id jd) = Some ''processing''" by (simp add: queue_inv_def)
  with t show ?thesis by (auto simp: st forward_def)
qed

lemma step_inv:
  "queue_inv (fst sw) \<Longrightarrow> fresh (fst sw) x \<Longrightarrow> queue_inv (fst (step cfg ev sw x))"
  by (cases x; cases sw) (simp_all add: fresh_def add_inv begin_inv finish_inv)

lemma step_forward:
  "queue_inv (fst sw) \<Longrightarrow> fresh (fst sw) x \<Longrightarrow>
   forward (status_of (fst sw) jid) (status_of (fst (step cfg ev sw x)) jid)"
  by (cases x; cases sw) (simp_all add: fresh_def add_forward begin_forward finish_forward)

lemma forward_run_inv:
  "queue_inv (fst sw) \<Longrightarrow> fresh_ids cfg ev sw ops \<Longrightarrow> forward_run cfg ev sw ops"
proof (induction ops arbitrary: sw)
  case Nil
  then show ?case by simp
next
  case (Cons x xs)
  then show ?case by (simp add: step_inv step_forward)
qed

lemma queue_inv_queue0: "queue_inv queue0"
  by (simp add: queue_inv_def queue0_def)

definition good_document :: json where
  "good_document =
     JDict [(''document'', JDict
       [(''id'', JStr ''doc_42''), (''filename'', JStr ''a.pdf''), (''riskLevel'', JStr ''Normal''),
        (''numPages'', JInt 3), (''numChunks'', JInt 7)])]"

definition good_env :: env where
  "good_env =
     \<lparr>outcomes = (\<lambda>k. http_status 200),
      backend = (\<lambda>k. Response \<lparr>status_code = 200, resp_text = [], json_body = Some good_document\<rparr>),
      utcnow = (\<lambda>k. ''2024-01-01T00:00:00'')\<rparr>"

definition add_job_1 :: "string option \<Rightarrow> op" where
  "add_job_1 wurl = Add ''job_1'' [0x25, 0x50, 0x44, 0x46] ''a.pdf'' wurl None None"

text \<open>
  Claim C2 as stated fails: \<^const>\<open>add_analysis_job\<close> writes \<^verbatim>\<open>pending\<close> whatever is
  recorded, so a second submission of the id of a completed job takes it from
  \<^verbatim>\<open>completed\<close> back to \<^verbatim>\<open>pending\<close>; and when the id is queued twice, the background
  step takes it from \<^verbatim>\<open>completed\<close> back to \<^verbatim>\<open>processing\<close>.
\<close>

theorem status_reversal_counterexample:
  "status_of (fst (run default_settings good_env (queue0, world0)
      [add_job_1 None, Begin, Finish])) ''job_1'' = Some ''completed'' \<and>
   status_of (fst (run default_settings good_env (queue0, world0)
      [add_job_1 None, Begin, Finish, add_job_1 None])) ''job_1'' = Some ''pending'' \<and>
   status_of (fst (run default_settings good_env (queue0, world0)
      [add_job_1 None, add_job_1 None, Begin, Finish])) ''job_1'' = Some ''completed'' \<and>
   status_of (fst (run default_settings good_env (queue0, world0)
      [add_job_1 None, add_job_1 None, Begin, Finish, Begin])) ''job_1'' = Some ''processing''"
  by code_simp

text \<open>
  Claim C2, amended. In every run of queue operations from the empty in-memory queue in
  which every submitted job id is fresh (no record exists for it when it is submitted),
  every step moves the status of every job forward along
  \<^verbatim>\<open>pending\<close>, \<^verbatim>\<open>processing\<close>, \<^verbatim>\<open>completed\<close> or \<^verbatim>\<open>failed\<close>; nothing leaves a terminal
  state.
\<close>

theorem status_moves_forward_for_fresh_ids:
  assumes "fresh_ids cfg ev (queue0, w) ops"
  shows "forward_run cfg ev (queue0, w) ops"
  using assms by (intro forward_run_inv) (simp_all add: queue_inv_queue0)

theorem status_moves_forward_for_fresh_ids_witness:
  "fresh_ids default_settings good_env (queue0, world0) [add_job_1 None, Begin, Finish] \<and>
   forward_run default_settings good_env (queue0, world0) [add_job_1 None, Begin, Finish]"
proof -
  have a: "fresh_ids default_settings good_env (queue0, world0) [add_job_1 None, Begin, Finish]"
    by code_simp
  from a status_moves_forward_for_fresh_ids [OF a] show ?thesis by (intro conjI)
qed

text \<open>
  Claim C3 as stated fails: the second submission of an id returns the id like the
  first, and the job is queued a second time. No \<^verbatim>\<open>DuplicateId\<close> exists in the code.
\<close>

theorem duplicate_id_accepted_counterexample:
  "fst (add_analysis_job ''job_1'' [0x25] ''a.pdf'' None None None queue0) = ''job_1'' \<and>
   fst (add_analysis_job ''job_1'' [0x26] ''b.pdf'' None None None
          (snd (add_analysis_job ''job_1'' [0x25] ''a.pdf'' None None None queue0))) = ''job_1'' \<and>
   map filename (in_memory_queue (snd (add_analysis_job ''job_1'' [0x26] ''b.pdf'' None None None
          (snd (add_analysis_job ''job_1'' [0x25] ''a.pdf'' None None None queue0))))) =
     [''a.pdf'', ''b.pdf'']"
  by code_simp

text \<open>
  Claim C3, amended. With the in-memory queue, submitting a job id twice succeeds both
  times and returns the id; the second submission appends a second queue entry for the
  id and sets its record to \<^verbatim>\<open>pending\<close>, whatever was recorded before.
\<close>

theorem second_submission_overwrites:
  assumes "bullmq_jobs s = None"
  shows "fst (add_analysis_job jid content fname wurl opts akey s) = jid \<and>
         fst (add_analysis_job jid content' fname' wurl' opts' akey'
                (snd (add_analysis_job jid content fname wurl opts akey s))) = jid \<and>
         map job_id (in_memory_queue (snd (add_analysis_job jid content' fname' wurl' opts' akey'
                (snd (add_analysis_job jid content fname wurl opts akey s))))) =
           map job_id (in_memory_queue s) @ [jid, jid] \<and>
         in_memory_processing (snd (add_analysis_job jid content' fname' wurl' opts' akey'
                (snd (add_analysis_job jid content fname wurl opts akey s)))) jid =
           Some [(''status'', JStr ''pending'')]"
proof -
  note a1 = add_in_memory [OF assms, of jid content fname wurl opts akey]
  from a1 have b: "bullmq_jobs (snd (add_analysis_job jid content fname wurl opts akey s)) = None"
    by simp
  note a2 = add_in_memory [OF b, of jid content' fname' wurl' opts' akey']
  from a1 a2 show ?thesis by simp
qed

theorem second_submission_overwrites_witness:
  "bullmq_jobs (fst (run default_settings good_env (queue0, world0)
      [add_job_1 None, Begin, Finish])) = None \<and>
   in_memory_processing (fst (run default_settings good_env (queue0, world0)
      [add_job_1 None, Begin, Finish])) ''job_1'' = Some [(''status'', JStr ''completed'')] \<and>
   in_memory_processing (snd (add_analysis_job ''job_1'' [0x26] ''b.pdf'' None None None
      (snd (add_analysis_job ''job_1'' [0x25] ''a.pdf'' None None None
         (fst (run default_settings good_env (queue0, world0)
            [add_job_1 None, Begin, Finish])))))) ''job_1'' = Some [(''status'', JStr ''pending'')]"
proof -
  have a: "bullmq_jobs (fst (run default_settings good_env (queue0, world0)
      [add_job_1 None, Begin, Finish])) = None"
    by code_simp
  have b: "in_memory_processing (fst (run default_settings good_env (queue0, world0)
      [add_job_1 None, Begin, Finish])) ''job_1'' = Some [(''status'', JStr ''completed'')]"
    by code_simp
  from second_submission_overwrites [OF a, of "''job_1''" "[0x25]" "''a.pdf''" None None None
      "[0x26]" "''b.pdf''" None None None]
  have c: "in_memory_processing (snd (add_analysis_job ''job_1'' [0x26] ''b.pdf'' None None None
      (snd (add_analysis_job ''job_1'' [0x25] ''a.pdf'' None None None
         (fst (run default_settings good_env (queue0, world0)
            [add_job_1 None, Begin, Finish])))))) ''job_1'' = Some [(''status'', JStr ''pending'')]"
    by blast
  from a b c show ?thesis by (intro conjI)
qed

text \<open>
  Claim C7 does not hold on the in-memory queue. With a backend that always answers 500,
  one submission followed by one iteration of the background task leaves the job
  \<^verbatim>\<open>failed\<close> after a single call of the backend; the only sleep is the one second at
  the end of the iteration.
\<close>

theorem failed_after_single_execution:
  "status_of (fst (run default_settings always_500 (queue0, world0)
      [add_job_1 None, Begin, Finish])) ''job_1'' = Some ''failed'' \<and>
   length (backend_posts (snd (run default_settings always_500 (queue0, world0)
      [add_job_1 None, Begin, Finish]))) = 1 \<and>
   sleeps (snd (run default_settings always_500 (queue0, world0)
      [add_job_1 None, Begin, Finish])) = [1]"
  by code_simp

text \<open>
  Claim C9 does not hold in its result part. After a run in which the backend answers
  with a valid document and the subscriber accepts the first POST, the status query
  answers \<^verbatim>\<open>completed\<close> with no result: the background task stores only the status. The
  subscriber has received one POST, with event \<^verbatim>\<open>analysis.completed\<close> and the backend's
  document id.
\<close>

theorem completed_job_has_no_result:
  "get_job (\<lambda>jid. None) ''2024-01-01T00:00:09'' ''job_1''
     (fst (run default_settings good_env (queue0, world0)
        [add_job_1 (Some ''http://subscriber''), Begin, Finish])) =
     Inr \<lparr>r_job_id = ''job_1'', r_status = ''completed'', r_created_at = ''2024-01-01T00:00:09'',
          r_completed_at = Some ''2024-01-01T00:00:09'', r_result = None, r_error = None\<rparr> \<and>
   map (\<lambda>rq. getitem (req_json rq) ''event'')
     (webhook_posts (snd (run default_settings good_env (queue0, world0)
        [add_job_1 (Some ''http://subscriber''), Begin, Finish]))) =
     [Inr (JStr ''analysis.completed'')] \<and>
   map (\<lambda>rq. ebind (getitem (req_json rq) ''data'') (\<lambda>d. ebind (getitem d ''result'')
           (\<lambda>r. getitem r ''document_id'')))
     (webhook_posts (snd (run default_settings good_env (queue0, world0)
        [add_job_1 (Some ''http://subscriber''), Begin, Finish]))) =
     [Inr (JStr ''doc_42'')]"
  by code_simp

section \<open>API keys (\<^verbatim>\<open>auth/api_keys.py\<close>)\<close>

text \<open>
  \<^verbatim>\<open>s.split(sep, 1)\<close> for a one-character separator: the string itself when the
  separator does not occur, otherwise what is before and what is after its first
  occurrence.
\<close>

definition split1 :: "char \<Rightarrow> string \<Rightarrow> string list" where
  "split1 sep s =
     (if sep \<in> set s
      then [takeWhile (\<lambda>c. c \<noteq> sep) s, tl (dropWhile (\<lambda>c. c \<noteq> sep) s)]
      else [s])"

record key_info =
  key_id :: string
  hashed_secret :: string
  created_at :: string
  last_used :: "string option"
  rate_limit :: nat
  tier :: string
  active :: bool

type_synonym api_keys = "string \<rightharpoonup> key_info"

text \<open>
  The two random tokens of \<^verbatim>\<open>secrets.token_urlsafe\<close> and the clock are parameters. The
  result is the returned pair \<^verbatim>\<open>(key_id, full_key)\<close> and the new \<^verbatim>\<open>API_KEYS\<close>.
\<close>

definition generate_api_key ::
  "string \<Rightarrow> string \<Rightarrow> string \<Rightarrow> api_keys \<Rightarrow> (string \<times> string) \<times> api_keys" where
  "generate_api_key token16 token32 now keys =
     (let kid = ''key_'' @ token16;
          secret = token32;
          full_key = kid @ ''_'' @ secret;
          hashed = hexdigest (sha256 (encode secret))
      in ((kid, full_key),
          keys(kid \<mapsto> \<lparr>key_id = kid, hashed_secret = hashed, created_at = now,
                         last_used = None, rate_limit = 100, tier = ''free'', active = True\<rparr>)))"

definition validate_api_key :: "string \<Rightarrow> string \<Rightarrow> api_keys \<Rightarrow> key_info option \<times> api_keys" where
  "validate_api_key full_key now keys =
     (let parts = split1 (CHR ''_'') full_key
      in if length parts \<noteq> 2 then (None, keys)
         else (let kid = parts ! 0; secret = parts ! 1
               in case keys kid of
                    None \<Rightarrow> (None, keys)
                  | Some info \<Rightarrow>
                      if \<not> active info then (None, keys)
                      else if hexdigest (sha256 (encode secret)) \<noteq> hashed_secret info
                      then (None, keys)
                      else (Some (info\<lparr>last_used := Some now\<rparr>),
                            keys(kid \<mapsto> info\<lparr>last_used := Some now\<rparr>))))"

text \<open>\<^verbatim>\<open>API_KEYS\<close> starts empty and only these two functions write to it.\<close>

datatype key_op = Generate string string string | Validate string string

fun key_step :: "api_keys \<Rightarrow> key_op \<Rightarrow> api_keys" where
  "key_step keys (Generate token16 token32 now) = snd (generate_api_key token16 token32 now keys)"
| "key_step keys (Validate full_key now) = snd (validate_api_key full_key now keys)"

definition key_run :: "key_op list \<Rightarrow> api_keys" where
  "key_run ops = foldl key_step Map.empty ops"

lemma split1_full_key:
  "split1 (CHR ''_'') (''key_'' @ token16 @ ''_'' @ token32) = [''key'', token16 @ ''_'' @ token32]"
  by (simp add: split1_def)

lemma generate_no_key: "keys ''key'' = None \<Longrightarrow> snd (generate_api_key t16 t32 now keys) ''key'' = None"
  by (simp add: generate_api_key_def Let_def)

lemma validate_no_key: "keys ''key'' = None \<Longrightarrow> snd (validate_api_key k now keys) ''key'' = None"
  by (auto simp: validate_api_key_def Let_def split: option.splits)

lemma key_step_no_key: "keys ''key'' = None \<Longrightarrow> key_step keys x ''key'' = None"
  by (cases x) (simp_all add: generate_no_key validate_no_key)

lemma foldl_no_key: "keys ''key'' = None \<Longrightarrow> foldl key_step keys ops ''key'' = None"
  by (induction ops arbitrary: keys) (simp_all add: key_step_no_key)

lemma key_run_no_key: "key_run ops ''key'' = None"
  by (simp add: key_run_def foldl_no_key)

lemma generated_full_key:
  "snd (fst (generate_api_key token16 token32 now keys)) = ''key_'' @ token16 @ ''_'' @ token32"
  by (simp add: generate_api_key_def Let_def)

lemma validate_full_key:
  "keys ''key'' = None \<Longrightarrow>
   validate_api_key (''key_'' @ token16 @ ''_'' @ token32) now keys = (None, keys)"
  by (simp add: validate_api_key_def split1_full_key Let_def del: append.simps)

text \<open>
  Claim C10. Whatever has happened to \<^verbatim>\<open>API_KEYS\<close> before and after, the pair returned
  by \<^const>\<open>generate_api_key\<close> is \<^verbatim>\<open>key_<token>\<close> and \<^verbatim>\<open>key_<token>_<secret>\<close>; splitting
  the full key at its first underscore gives the id \<^verbatim>\<open>key\<close>; \<^verbatim>\<open>key\<close> is never a stored
  key id; and \<^const>\<open>validate_api_key\<close> applied to the full key returns \<^verbatim>\<open>None\<close>.
\<close>

theorem generated_key_never_validates:
  "fst (generate_api_key token16 token32 now (key_run ops)) =
     (''key_'' @ token16, ''key_'' @ token16 @ ''_'' @ token32) \<and>
   split1 (CHR ''_'') (snd (fst (generate_api_key token16 token32 now (key_run ops)))) ! 0 = ''key'' \<and>
   key_run (ops @ Generate token16 token32 now # later) ''key'' = None \<and>
   fst (validate_api_key (snd (fst (generate_api_key token16 token32 now (key_run ops)))) now'
          (key_run (ops @ Generate token16 token32 now # later))) = None"
  by (simp add: generated_full_key validate_full_key key_run_no_key split1_full_key
      del: append.simps)
    (simp add: generate_api_key_def Let_def)

end
